theory Spec2Isabelle
  imports Main "HOL-Library.Sublist"
begin

section \<open>Go strings and the library functions the portal calls\<close>

text \<open>
  The model follows \<^verbatim>\<open>backend/main.go\<close> in its current revision (the one with the
  \<^verbatim>\<open>Description\<close> field, the \<^verbatim>\<open>/health\<close> endpoint and the fallback configuration
  path). A Go string is a sequence of bytes, so it is a \<^typ>\<open>string\<close> here: a list of
  8-bit characters. Text beyond ASCII is its UTF-8 encoding, several bytes per rune.
\<close>

type_synonym rune = nat

definition byte :: "char \<Rightarrow> nat" where
  "byte c = of_char c"

subsection \<open>\<^verbatim>\<open>utf8.DecodeRuneInString\<close> and \<^verbatim>\<open>range\<close> over a string\<close>

definition RuneError :: rune where
  "RuneError = 0xFFFD"

definition acceptLo :: "nat \<Rightarrow> nat" where
  "acceptLo b0 = (if b0 = 0xE0 then 0xA0 else if b0 = 0xF0 then 0x90 else 0x80)"

definition acceptHi :: "nat \<Rightarrow> nat" where
  "acceptHi b0 = (if b0 = 0xED then 0x9F else if b0 = 0xF4 then 0x8F else 0xBF)"

definition inRange :: "char \<Rightarrow> nat \<Rightarrow> nat \<Rightarrow> bool" where
  "inRange c lo hi = (lo \<le> byte c \<and> byte c \<le> hi)"

text \<open>
  The first rune of a string and its width in bytes. A byte below \<open>0x80\<close> is its own
  rune; \<open>0xC2..0xDF\<close> starts a two-byte, \<open>0xE0..0xEF\<close> a three-byte and \<open>0xF0..0xF4\<close>
  a four-byte encoding, whose second byte lies in the accept range of the first and whose
  other bytes lie in \<open>0x80..0xBF\<close>. Everything else (a stray continuation byte, a
  truncated or overlong encoding, a surrogate, a value above \<open>0x10FFFF\<close>) is
  \<^verbatim>\<open>RuneError\<close> of width 1.
\<close>

fun DecodeRuneInString :: "string \<Rightarrow> rune \<times> nat" where
  "DecodeRuneInString [] = (RuneError, 0)"
| "DecodeRuneInString (c # cs) =
     (let b0 = byte c in
      if b0 < 0x80 then (b0, 1)
      else if 0xC2 \<le> b0 \<and> b0 \<le> 0xDF then
        (case cs of
           c1 # _ \<Rightarrow>
             if inRange c1 0x80 0xBF
             then ((b0 mod 0x20) * 0x40 + byte c1 mod 0x40, 2)
             else (RuneError, 1)
         | _ \<Rightarrow> (RuneError, 1))
      else if 0xE0 \<le> b0 \<and> b0 \<le> 0xEF then
        (case cs of
           c1 # c2 # _ \<Rightarrow>
             if inRange c1 (acceptLo b0) (acceptHi b0) \<and> inRange c2 0x80 0xBF
             then ((b0 mod 0x10) * 0x1000 + (byte c1 mod 0x40) * 0x40 + byte c2 mod 0x40, 3)
             else (RuneError, 1)
         | _ \<Rightarrow> (RuneError, 1))
      else if 0xF0 \<le> b0 \<and> b0 \<le> 0xF4 then
        (case cs of
           c1 # c2 # c3 # _ \<Rightarrow>
             if inRange c1 (acceptLo b0) (acceptHi b0) \<and> inRange c2 0x80 0xBF
                \<and> inRange c3 0x80 0xBF
             then ((b0 mod 0x08) * 0x40000 + (byte c1 mod 0x40) * 0x1000
                   + (byte c2 mod 0x40) * 0x40 + byte c3 mod 0x40, 4)
             else (RuneError, 1)
         | _ \<Rightarrow> (RuneError, 1))
      else (RuneError, 1))"

text \<open>
  \<^verbatim>\<open>for _, r := range s\<close>: the runes of a string, one decoding step after the other.
  The width of a step on a non-empty string is at least 1, so \<open>w - 1\<close> bytes of the
  tail are dropped.
\<close>

fun runes :: "string \<Rightarrow> rune list" where
  "runes [] = []"
| "runes (c # cs) =
     (case DecodeRuneInString (c # cs) of (r, w) \<Rightarrow> r # runes (drop (w - 1) cs))"

subsection \<open>\<^verbatim>\<open>strings.EqualFold\<close>\<close>

text \<open>
  \<^verbatim>\<open>EqualFold\<close> compares two strings rune by rune under Unicode simple case folding.
  Two ASCII runes are compared by the code itself (\<open>'A'..'Z'\<close> against the letter 32
  above). For a pair whose larger rune is not ASCII the library walks the orbit of
  \<^verbatim>\<open>unicode.SimpleFold\<close> from the smaller rune; the Unicode tables behind that walk are
  not part of this repository, so its outcome is the parameter \<open>orbit\<close>: \<open>orbit lo hi\<close>
  says whether the walk from \<open>lo\<close> reaches \<open>hi\<close>, for \<open>lo < hi\<close> and \<open>0x80 \<le> hi\<close>.
  Every theorem below holds for every such table.
\<close>

type_synonym foldTable = "rune \<Rightarrow> rune \<Rightarrow> bool"

definition eqRune :: "foldTable \<Rightarrow> rune \<Rightarrow> rune \<Rightarrow> bool" where
  "eqRune orbit sr tr =
     (if tr = sr then True
      else let lo = min sr tr; hi = max sr tr in
        if hi < 0x80 then 0x41 \<le> lo \<and> lo \<le> 0x5A \<and> hi = lo + 0x20
        else orbit lo hi)"

text \<open>
  The comparison loop: a mismatch or an exhausted second string ends it with \<open>false\<close>;
  when the first string is exhausted the second must be too. (The library's ASCII fast
  path is this loop on one-byte runes.)
\<close>

fun foldLoop :: "foldTable \<Rightarrow> rune list \<Rightarrow> rune list \<Rightarrow> bool" where
  "foldLoop orbit [] trs = (trs = [])"
| "foldLoop orbit (sr # srs) [] = False"
| "foldLoop orbit (sr # srs) (tr # trs) =
     (if eqRune orbit sr tr then foldLoop orbit srs trs else False)"

definition EqualFold :: "foldTable \<Rightarrow> string \<Rightarrow> string \<Rightarrow> bool" where
  "EqualFold orbit s t = foldLoop orbit (runes s) (runes t)"

subsection \<open>\<^verbatim>\<open>strings.TrimSpace\<close>\<close>

text \<open>
  \<^verbatim>\<open>TrimSpace\<close> removes the leading and the trailing white space of a string, as
  \<^verbatim>\<open>unicode.IsSpace\<close> defines it: tab, line feed, vertical tab, form feed, carriage
  return, space, U+0085, U+00A0, U+1680, U+2000 to U+200A, U+2028, U+2029, U+202F, U+205F
  and U+3000. On the bytes of a string these runes are exactly the encodings listed in
  \<open>whiteSpace\<close>: no other byte sequence decodes to one of them, forwards or backwards.
\<close>

definition whiteSpace :: "string list" where
  "whiteSpace =
     [[CHR 0x09], [CHR 0x0A], [CHR 0x0B], [CHR 0x0C], [CHR 0x0D], [CHR 0x20],
      [CHR 0xC2, CHR 0x85], [CHR 0xC2, CHR 0xA0],
      [CHR 0xE1, CHR 0x9A, CHR 0x80],
      [CHR 0xE2, CHR 0x80, CHR 0x80], [CHR 0xE2, CHR 0x80, CHR 0x81],
      [CHR 0xE2, CHR 0x80, CHR 0x82], [CHR 0xE2, CHR 0x80, CHR 0x83],
      [CHR 0xE2, CHR 0x80, CHR 0x84], [CHR 0xE2, CHR 0x80, CHR 0x85],
      [CHR 0xE2, CHR 0x80, CHR 0x86], [CHR 0xE2, CHR 0x80, CHR 0x87],
      [CHR 0xE2, CHR 0x80, CHR 0x88], [CHR 0xE2, CHR 0x80, CHR 0x89],
      [CHR 0xE2, CHR 0x80, CHR 0x8A],
      [CHR 0xE2, CHR 0x80, CHR 0xA8], [CHR 0xE2, CHR 0x80, CHR 0xA9],
      [CHR 0xE2, CHR 0x80, CHR 0xAF],
      [CHR 0xE2, CHR 0x81, CHR 0x9F],
      [CHR 0xE3, CHR 0x80, CHR 0x80]]"

fun leadingSpace :: "string list \<Rightarrow> string \<Rightarrow> nat" where
  "leadingSpace [] s = 0"
| "leadingSpace (w # ws) s = (if prefix w s then length w else leadingSpace ws s)"

fun trailingSpace :: "string list \<Rightarrow> string \<Rightarrow> nat" where
  "trailingSpace [] s = 0"
| "trailingSpace (w # ws) s = (if suffix w s then length w else trailingSpace ws s)"

lemma leadingSpace_le: "leadingSpace ws s \<le> length s"
  by (induction ws) (auto simp: prefix_length_le)

lemma trailingSpace_le: "trailingSpace ws s \<le> length s"
  by (induction ws) (auto simp: suffix_length_le)

function TrimLeft :: "string \<Rightarrow> string" where
  "TrimLeft s =
     (let n = leadingSpace whiteSpace s in if n = 0 then s else TrimLeft (drop n s))"
  by pat_completeness auto

termination
proof (relation "measure length")
  show "wf (measure length)" by simp
next
  fix s :: string and n
  assume "n = leadingSpace whiteSpace s" and "n \<noteq> 0"
  moreover have "leadingSpace whiteSpace s \<le> length s" by (rule leadingSpace_le)
  ultimately show "(drop n s, s) \<in> measure length" by simp
qed

function TrimRight :: "string \<Rightarrow> string" where
  "TrimRight s =
     (let n = trailingSpace whiteSpace s in
      if n = 0 then s else TrimRight (take (length s - n) s))"
  by pat_completeness auto

termination
proof (relation "measure length")
  show "wf (measure length)" by simp
next
  fix s :: string and n
  assume "n = trailingSpace whiteSpace s" and "n \<noteq> 0"
  moreover have "trailingSpace whiteSpace s \<le> length s" by (rule trailingSpace_le)
  ultimately show "(take (length s - n) s, s) \<in> measure length" by simp
qed

declare TrimLeft.simps [simp del] TrimRight.simps [simp del]

definition TrimSpace :: "string \<Rightarrow> string" where
  "TrimSpace s = TrimRight (TrimLeft s)"

subsection \<open>\<^verbatim>\<open>strings.Split\<close> with a one-byte separator\<close>

text \<open>
  Every call of \<^verbatim>\<open>strings.Split\<close> in the source has the separator \<^verbatim>\<open>","\<close>, one byte.
  The library cuts the string at each occurrence of the separator, from the left, and
  returns the pieces with the rest as the last one: a string without separator (the
  empty string too) gives one piece.
\<close>

fun IndexByte :: "string \<Rightarrow> char \<Rightarrow> nat option" where
  "IndexByte [] c = None"
| "IndexByte (x # xs) c = (if x = c then Some 0 else map_option Suc (IndexByte xs c))"

lemma IndexByte_less: "IndexByte s c = Some m \<Longrightarrow> m < length s"
  by (induction s arbitrary: m) (auto split: if_splits)

function Split :: "string \<Rightarrow> char \<Rightarrow> string list" where
  "Split s sep =
     (case IndexByte s sep of
        None \<Rightarrow> [s]
      | Some m \<Rightarrow> take m s # Split (drop (m + 1) s) sep)"
  by pat_completeness auto

termination
  by (relation "measure (\<lambda>(s, sep). length s)") (auto dest: IndexByte_less)

declare Split.simps [simp del]

section \<open>The data model\<close>

record App =
  Title :: string
  Icon :: string
  URL :: string
  Groups :: "string list"
  Description :: string

text \<open>
  An entry of the configuration file carries an annotation bag, a Go
  \<^verbatim>\<open>map[string]string\<close>; the file has a top-level \<^verbatim>\<open>groups\<close> string (the field
  \<^verbatim>\<open>Config.Groups\<close>, named \<open>ConfigGroups\<close> here because \<open>Groups\<close> is the field of
  \<open>App\<close>) and the list of entries.
\<close>

record IngressConfig =
  Annotations :: "string \<rightharpoonup> string"

record Config =
  ConfigGroups :: string
  Ingresses :: "IngressConfig list"

text \<open>
  Of a cluster's \<^verbatim>\<open>v1.Ingress\<close> the code reads the annotations and the namespace of
  the object's metadata and, in its \<^verbatim>\<open>Spec\<close>, the rules (their \<^verbatim>\<open>Host\<close>) and the TLS
  entries (only how many there are). A TLS entry of the Kubernetes API lists the hosts
  its certificate covers and names a secret.
\<close>

record IngressRule =
  Host :: string

record IngressTLS =
  Hosts :: "string list"
  SecretName :: string

record IngressSpec =
  Rules :: "IngressRule list"
  TLS :: "IngressTLS list"

record Ingress =
  Namespace :: string
  MetaAnnotations :: "string \<rightharpoonup> string"
  Spec :: IngressSpec

text \<open>Reading a Go map: a missing key (and a nil map) gives the empty string.\<close>

definition index :: "(string \<rightharpoonup> string) \<Rightarrow> string \<Rightarrow> string" where
  "index m k = (case m k of None \<Rightarrow> [] | Some v \<Rightarrow> v)"

section \<open>The annotation mapper\<close>

subsection \<open>\<^verbatim>\<open>getIngressURL\<close>\<close>

definition getIngressURL :: "Ingress \<Rightarrow> string" where
  "getIngressURL ing =
     (if length (Rules (Spec ing)) > 0 then
        (let host = Host (Rules (Spec ing) ! 0) in
         if length (TLS (Spec ing)) > 0 then ''https://'' @ host
         else ''http://'' @ host)
      else [])"

subsection \<open>The loops of \<^verbatim>\<open>getDemoApps\<close> and \<^verbatim>\<open>getK8sApps\<close>\<close>

text \<open>
  One iteration of the loop of \<^verbatim>\<open>getDemoApps\<close>: \<open>None\<close> is the \<^verbatim>\<open>continue\<close> of an
  entry that is not enabled, \<open>Some app\<close> the application appended to \<^verbatim>\<open>apps\<close>. The
  slice \<^verbatim>\<open>Groups\<close> of a fresh \<^verbatim>\<open>App\<close> is nil, the empty list.
\<close>

definition demoEntry :: "IngressConfig \<Rightarrow> App option" where
  "demoEntry ing =
     (if index (Annotations ing) ''dashboard.home/enabled'' \<noteq> ''true'' then None
      else
        let app = \<lparr>Title = index (Annotations ing) ''dashboard.home/title'',
                   Icon = index (Annotations ing) ''dashboard.home/icon'',
                   URL = ''https://example.com'',
                   Groups = [],
                   Description = index (Annotations ing) ''dashboard.home/description''\<rparr>;
            groups = index (Annotations ing) ''dashboard.home/groups''
        in Some (if groups \<noteq> [] then app\<lparr>Groups := Split groups CHR '',''\<rparr> else app))"

fun demoLoop :: "IngressConfig list \<Rightarrow> App list \<Rightarrow> App list" where
  "demoLoop [] apps = apps"
| "demoLoop (ing # rest) apps =
     (case demoEntry ing of
        None \<Rightarrow> demoLoop rest apps
      | Some app \<Rightarrow> demoLoop rest (apps @ [app]))"

text \<open>The same for the loop of \<^verbatim>\<open>getK8sApps\<close>, whose URL comes from the ingress.\<close>

definition k8sEntry :: "Ingress \<Rightarrow> App option" where
  "k8sEntry ing =
     (if index (MetaAnnotations ing) ''dashboard.home/enabled'' \<noteq> ''true'' then None
      else
        let app = \<lparr>Title = index (MetaAnnotations ing) ''dashboard.home/title'',
                   Icon = index (MetaAnnotations ing) ''dashboard.home/icon'',
                   URL = getIngressURL ing,
                   Groups = [],
                   Description = index (MetaAnnotations ing) ''dashboard.home/description''\<rparr>;
            groups = index (MetaAnnotations ing) ''dashboard.home/groups''
        in Some (if groups \<noteq> [] then app\<lparr>Groups := Split groups CHR '',''\<rparr> else app))"

fun k8sLoop :: "Ingress list \<Rightarrow> App list \<Rightarrow> App list" where
  "k8sLoop [] apps = apps"
| "k8sLoop (ing # rest) apps =
     (case k8sEntry ing of
        None \<Rightarrow> k8sLoop rest apps
      | Some app \<Rightarrow> k8sLoop rest (apps @ [app]))"

section \<open>The source adapters\<close>

text \<open>
  What the adapters read lies outside the program: the files (a path has contents or
  cannot be read), the YAML decoder (a document decodes to a \<open>Config\<close> or fails with a
  message) and the cluster (each of the three calls of \<^verbatim>\<open>getK8sApps\<close> fails with a
  message or succeeds; the listing returns the ingresses). They are the fields of the
  \<open>World\<close> a request runs in.
\<close>

datatype error = PathError string | YamlError string | ClusterError string

record World =
  Files :: "string \<rightharpoonup> string"
  Unmarshal :: "string \<Rightarrow> string + Config"
  InClusterConfig :: "string option"
  NewForConfig :: "string option"
  ListIngresses :: "string + Ingress list"

definition ReadFile :: "World \<Rightarrow> string \<Rightarrow> error + string" where
  "ReadFile w path = (case Files w path of None \<Rightarrow> Inl (PathError path) | Some d \<Rightarrow> Inr d)"

definition yamlUnmarshal :: "World \<Rightarrow> string \<Rightarrow> error + Config" where
  "yamlUnmarshal w d = (case Unmarshal w d of Inl m \<Rightarrow> Inl (YamlError m) | Inr c \<Rightarrow> Inr c)"

text \<open>
  \<^verbatim>\<open>getDemoApps\<close> and \<^verbatim>\<open>getK8sApps\<close> return a pair as the Go functions do: the
  applications and the error, \<open>None\<close> for \<^verbatim>\<open>nil\<close>. The first read is tried on the primary
  path; when it fails the second read replaces both \<^verbatim>\<open>data\<close> and \<^verbatim>\<open>err\<close>.
\<close>

definition getDemoApps :: "World \<Rightarrow> App list \<times> error option" where
  "getDemoApps w =
     (let r = ReadFile w ''/etc/dashboard/config.yaml'';
          r = (case r of Inl err \<Rightarrow> ReadFile w ''config.yaml'' | Inr dat \<Rightarrow> r)
      in case r of
           Inl err \<Rightarrow> ([], Some err)
         | Inr dat \<Rightarrow>
             (case yamlUnmarshal w dat of
                Inl err \<Rightarrow> ([], Some err)
              | Inr config \<Rightarrow> (demoLoop (Ingresses config) [], None)))"

definition getK8sApps :: "World \<Rightarrow> App list \<times> error option" where
  "getK8sApps w =
     (case InClusterConfig w of
        Some m \<Rightarrow> ([], Some (ClusterError m))
      | None \<Rightarrow>
          (case NewForConfig w of
             Some m \<Rightarrow> ([], Some (ClusterError m))
           | None \<Rightarrow>
               (case ListIngresses w of
                  Inl m \<Rightarrow> ([], Some (ClusterError m))
                | Inr items \<Rightarrow> (k8sLoop items [], None))))"

text \<open>
  \<^verbatim>\<open>loadDemoGroups\<close> runs once at startup in demo mode and sets the global
  \<^verbatim>\<open>demoGroups\<close>; the model takes the old value and returns the new one. A file that
  cannot be read or decoded leaves it as it was (a warning is logged).
\<close>

definition loadDemoGroups :: "World \<Rightarrow> string list \<Rightarrow> string list" where
  "loadDemoGroups w demoGroups =
     (let r = ReadFile w ''/etc/dashboard/config.yaml'';
          r = (case r of Inl err \<Rightarrow> ReadFile w ''config.yaml'' | Inr dat \<Rightarrow> r)
      in case r of
           Inl err \<Rightarrow> demoGroups
         | Inr dat \<Rightarrow>
             (case yamlUnmarshal w dat of
                Inl err \<Rightarrow> demoGroups
              | Inr config \<Rightarrow>
                  if ConfigGroups config \<noteq> []
                  then map TrimSpace (Split (ConfigGroups config) CHR '','')
                  else demoGroups))"

section \<open>The group filter\<close>

text \<open>
  \<^verbatim>\<open>filterAppsByGroups\<close> has three nested loops and a \<^verbatim>\<open>goto next\<close> that leaves the
  two inner ones at the first match. \<open>userLoop\<close> is the innermost loop (over the
  caller's groups, for one group of the application), \<open>groupLoop\<close> the one over the
  application's groups; both return whether the jump was taken. \<open>appLoop\<close> is the
  outer loop with the slice \<^verbatim>\<open>filtered\<close> it appends to.
\<close>

fun userLoop :: "foldTable \<Rightarrow> string \<Rightarrow> string list \<Rightarrow> bool" where
  "userLoop orbit appGroup [] = False"
| "userLoop orbit appGroup (userGroup # rest) =
     (if EqualFold orbit (TrimSpace appGroup) (TrimSpace userGroup) then True
      else userLoop orbit appGroup rest)"

fun groupLoop :: "foldTable \<Rightarrow> string list \<Rightarrow> string list \<Rightarrow> bool" where
  "groupLoop orbit [] userGroups = False"
| "groupLoop orbit (appGroup # rest) userGroups =
     (if userLoop orbit appGroup userGroups then True
      else groupLoop orbit rest userGroups)"

fun appLoop :: "foldTable \<Rightarrow> App list \<Rightarrow> string list \<Rightarrow> App list \<Rightarrow> App list" where
  "appLoop orbit [] userGroups filtered = filtered"
| "appLoop orbit (app # rest) userGroups filtered =
     (if length (Groups app) = 0 then appLoop orbit rest userGroups (filtered @ [app])
      else if groupLoop orbit (Groups app) userGroups
           then appLoop orbit rest userGroups (filtered @ [app])
           else appLoop orbit rest userGroups filtered)"

definition filterAppsByGroups :: "foldTable \<Rightarrow> App list \<Rightarrow> string list \<Rightarrow> App list" where
  "filterAppsByGroups orbit apps userGroups =
     (if length userGroups = 0 then apps else appLoop orbit apps userGroups [])"

section \<open>The request handler\<close>

text \<open>
  Of a request the handler reads the method and one header; \<^verbatim>\<open>Header.Get\<close> gives the
  empty string for a header that is not there. The process-wide settings are fixed at
  startup: the mode and the groups of the demo user. (The debug flag only adds log lines.)
\<close>

record Request =
  Method :: string
  Header :: "string \<rightharpoonup> string"

record Settings =
  demoMode :: bool
  demoGroups :: "string list"

definition getUserGroups :: "Settings \<Rightarrow> Request \<Rightarrow> string list" where
  "getUserGroups cfg r =
     (if demoMode cfg then demoGroups cfg
      else
        let groupsHeader = index (Header r) ''X-Forwarded-Groups'' in
        if groupsHeader = [] then []
        else map TrimSpace (Split groupsHeader CHR '',''))"

text \<open>
  A response is either \<^verbatim>\<open>http.Error\<close> with its status and body, or the JSON encoding
  of a list of applications with status 200.
\<close>

datatype Response = HttpError nat string | Encoded "App list"

definition handleApps :: "foldTable \<Rightarrow> Settings \<Rightarrow> World \<Rightarrow> Request \<Rightarrow> Response" where
  "handleApps orbit cfg w r =
     (if Method r \<noteq> ''GET'' then HttpError 405 ''{\"error\":\"method not allowed\"}''
      else
        let userGroups = getUserGroups cfg r;
            (apps, err) = (if demoMode cfg then getDemoApps w else getK8sApps w)
        in if err \<noteq> None then HttpError 500 ''{\"error\":\"failed to fetch apps\"}''
           else Encoded (filterAppsByGroups orbit apps userGroups))"

section \<open>Notions of the specification\<close>

text \<open>
  The words of the specification for one application and a non-empty caller group set:
  some group of the application equals some group of the caller, both trimmed, compared
  without regard to case.
\<close>

definition groupsIntersect :: "foldTable \<Rightarrow> string list \<Rightarrow> string list \<Rightarrow> bool" where
  "groupsIntersect orbit appGroups userGroups =
     (\<exists>a \<in> set appGroups. \<exists>u \<in> set userGroups.
        EqualFold orbit (TrimSpace a) (TrimSpace u))"

definition passes :: "foldTable \<Rightarrow> string list \<Rightarrow> App \<Rightarrow> bool" where
  "passes orbit userGroups app =
     (Groups app = [] \<or> groupsIntersect orbit (Groups app) userGroups)"

text \<open>
  \<open>Join\<close> is \<^verbatim>\<open>strings.Join\<close> with a one-byte separator: the pieces with the separator
  between them. It states what splitting without trimming means.
\<close>

fun Join :: "string list \<Rightarrow> char \<Rightarrow> string" where
  "Join [] sep = []"
| "Join [p] sep = p"
| "Join (p # q # ps) sep = p @ sep # Join (q # ps) sep"

text \<open>
  Trimming and case folding on ASCII strings, stated without the library: \<open>normalize\<close>
  drops the leading and the trailing ASCII white space and puts the letters \<open>A\<close> to
  \<open>Z\<close> in lower case.
\<close>

definition asciiString :: "string \<Rightarrow> bool" where
  "asciiString s = (\<forall>c \<in> set s. byte c < 0x80)"

definition asciiSpace :: "char \<Rightarrow> bool" where
  "asciiSpace c = (c \<in> {CHR 0x09, CHR 0x0A, CHR 0x0B, CHR 0x0C, CHR 0x0D, CHR 0x20})"

definition toLower :: "char \<Rightarrow> char" where
  "toLower c = (if 0x41 \<le> byte c \<and> byte c \<le> 0x5A then char_of (byte c + 0x20) else c)"

definition normalize :: "string \<Rightarrow> string" where
  "normalize s = map toLower (rev (dropWhile asciiSpace (rev (dropWhile asciiSpace s))))"

text \<open>
  The words of the specification, "TLS is configured for that rule": some TLS entry of
  the ingress covers the rule's host, by listing it or by listing no host at all (an
  entry without hosts stands for the controller's default certificate).
\<close>

definition tlsConfiguredFor :: "Ingress \<Rightarrow> IngressRule \<Rightarrow> bool" where
  "tlsConfiguredFor ing rule =
     (\<exists>t \<in> set (TLS (Spec ing)). Hosts t = [] \<or> Host rule \<in> set (Hosts t))"

text \<open>The derived URL in the words of the specification: the scheme follows the first rule.\<close>

definition specIngressURL :: "Ingress \<Rightarrow> string" where
  "specIngressURL ing =
     (case Rules (Spec ing) of
        [] \<Rightarrow> []
      | rule # _ \<Rightarrow>
          (if tlsConfiguredFor ing rule then ''https://'' else ''http://'') @ Host rule)"

text \<open>
  The document \<^verbatim>\<open>getDemoApps\<close> decodes, if any: the contents of the primary path when it
  can be read, of the fallback path otherwise. The source is unavailable when there is
  none, malformed when the decoder rejects it.
\<close>

definition demoDocument :: "World \<Rightarrow> string option" where
  "demoDocument w =
     (case Files w ''/etc/dashboard/config.yaml'' of
        Some d \<Rightarrow> Some d
      | None \<Rightarrow> Files w ''config.yaml'')"

definition demoSourceFails :: "World \<Rightarrow> bool" where
  "demoSourceFails w = (case demoDocument w of None \<Rightarrow> True | Some d \<Rightarrow> isl (Unmarshal w d))"

definition clusterFails :: "World \<Rightarrow> bool" where
  "clusterFails w =
     (InClusterConfig w \<noteq> None \<or> NewForConfig w \<noteq> None \<or> isl (ListIngresses w))"

section \<open>The earlier revision of the filter\<close>

text \<open>
  \<^verbatim>\<open>main.go\<close> is kept in two revisions. In the earlier one (without descriptions and
  without the fallback path) the filter compares the trimmed groups with \<^verbatim>\<open>==\<close>, so it
  distinguishes case; everything else in it is as in the current revision.
\<close>

fun userLoopV1 :: "string \<Rightarrow> string list \<Rightarrow> bool" where
  "userLoopV1 appGroup [] = False"
| "userLoopV1 appGroup (userGroup # rest) =
     (if TrimSpace appGroup = TrimSpace userGroup then True
      else userLoopV1 appGroup rest)"

fun groupLoopV1 :: "string list \<Rightarrow> string list \<Rightarrow> bool" where
  "groupLoopV1 [] userGroups = False"
| "groupLoopV1 (appGroup # rest) userGroups =
     (if userLoopV1 appGroup userGroups then True
      else groupLoopV1 rest userGroups)"

fun appLoopV1 :: "App list \<Rightarrow> string list \<Rightarrow> App list \<Rightarrow> App list" where
  "appLoopV1 [] userGroups filtered = filtered"
| "appLoopV1 (app # rest) userGroups filtered =
     (if length (Groups app) = 0 then appLoopV1 rest userGroups (filtered @ [app])
      else if groupLoopV1 (Groups app) userGroups
           then appLoopV1 rest userGroups (filtered @ [app])
           else appLoopV1 rest userGroups filtered)"

definition filterAppsByGroupsV1 :: "App list \<Rightarrow> string list \<Rightarrow> App list" where
  "filterAppsByGroupsV1 apps userGroups =
     (if length userGroups = 0 then apps else appLoopV1 apps userGroups [])"

section \<open>Inputs of the examples\<close>

text \<open>
  A table for concrete inputs: no rune beyond ASCII folds to another one. The inputs of
  the examples below are ASCII, where the table is never consulted.
\<close>

definition noFold :: foldTable where
  "noFold lo hi = False"

definition adminsApp :: App where
  "adminsApp = \<lparr>Title = ''Admin console'', Icon = [], URL = ''https://example.com'',
                 Groups = [''Admins ''], Description = []\<rparr>"

definition publicApp :: App where
  "publicApp = \<lparr>Title = ''Wiki'', Icon = [], URL = ''https://example.com'',
                 Groups = [], Description = []\<rparr>"

definition financeApp :: App where
  "financeApp = \<lparr>Title = ''Ledger'', Icon = [], URL = ''https://example.com'',
                 Groups = [''finance''], Description = []\<rparr>"

definition opsApp :: App where
  "opsApp = \<lparr>Title = ''Grafana'', Icon = [], URL = ''https://example.com'',
                 Groups = [''ops'', '' Dev''], Description = []\<rparr>"

definition grafanaEntry :: IngressConfig where
  "grafanaEntry = \<lparr>Annotations =
     [''dashboard.home/enabled'' \<mapsto> ''true'', ''dashboard.home/title'' \<mapsto> ''Grafana'',
      ''dashboard.home/groups'' \<mapsto> ''ops, admins'']\<rparr>"

definition grafanaApp :: App where
  "grafanaApp = \<lparr>Title = ''Grafana'', Icon = [], URL = ''https://example.com'',
                  Groups = [''ops'', '' admins''], Description = []\<rparr>"

definition disabledEntry :: IngressConfig where
  "disabledEntry = \<lparr>Annotations =
     [''dashboard.home/enabled'' \<mapsto> ''True'', ''dashboard.home/title'' \<mapsto> ''Hidden'']\<rparr>"

definition plainEntry :: IngressConfig where
  "plainEntry = \<lparr>Annotations =
     [''dashboard.home/enabled'' \<mapsto> ''true'', ''dashboard.home/groups'' \<mapsto> []]\<rparr>"

definition blankEntry :: IngressConfig where
  "blankEntry = \<lparr>Annotations =
     [''dashboard.home/enabled'' \<mapsto> ''true'', ''dashboard.home/groups'' \<mapsto> '' '']\<rparr>"

definition blankApp :: App where
  "blankApp = \<lparr>Title = [], Icon = [], URL = ''https://example.com'',
                Groups = ['' ''], Description = []\<rparr>"

definition commaEntry :: IngressConfig where
  "commaEntry = \<lparr>Annotations =
     [''dashboard.home/enabled'' \<mapsto> ''true'', ''dashboard.home/groups'' \<mapsto> '','']\<rparr>"

definition grafanaIngress :: Ingress where
  "grafanaIngress = \<lparr>Namespace = ''monitoring'',
     MetaAnnotations = [''dashboard.home/enabled'' \<mapsto> ''true'',
                        ''dashboard.home/groups'' \<mapsto> ''ops, admins''],
     Spec = \<lparr>Rules = [\<lparr>Host = ''app.example.com''\<rparr>],
             TLS = [\<lparr>Hosts = [''app.example.com''], SecretName = ''app-tls''\<rparr>]\<rparr>\<rparr>"

definition sharedIngress :: Ingress where
  "sharedIngress = \<lparr>Namespace = ''default'',
     MetaAnnotations = [''dashboard.home/enabled'' \<mapsto> ''true''],
     Spec = \<lparr>Rules = [\<lparr>Host = ''app.example.com''\<rparr>, \<lparr>Host = ''secure.example.com''\<rparr>],
             TLS = [\<lparr>Hosts = [''secure.example.com''], SecretName = ''secure-tls''\<rparr>]\<rparr>\<rparr>"

definition plainIngress :: Ingress where
  "plainIngress = \<lparr>Namespace = ''default'',
     MetaAnnotations = [''dashboard.home/enabled'' \<mapsto> ''true''],
     Spec = \<lparr>Rules = [\<lparr>Host = ''app.example.com''\<rparr>], TLS = []\<rparr>\<rparr>"

definition bareIngress :: Ingress where
  "bareIngress = \<lparr>Namespace = ''default'',
     MetaAnnotations = [''dashboard.home/enabled'' \<mapsto> ''true''],
     Spec = \<lparr>Rules = [], TLS = [\<lparr>Hosts = [], SecretName = ''tls''\<rparr>]\<rparr>\<rparr>"

definition demoWorld :: World where
  "demoWorld = \<lparr>Files = [''/etc/dashboard/config.yaml'' \<mapsto> ''ingresses: ...''],
                 Unmarshal = (\<lambda>d. if d = ''ingresses: ...''
                   then Inr \<lparr>ConfigGroups = ''ops'', Ingresses = [disabledEntry, grafanaEntry]\<rparr>
                   else Inl ''yaml: unmarshal errors''),
                 InClusterConfig = Some ''unable to load in-cluster configuration'',
                 NewForConfig = None,
                 ListIngresses = Inr []\<rparr>"

definition offlineWorld :: World where
  "offlineWorld = \<lparr>Files = Map.empty,
                    Unmarshal = (\<lambda>d. Inl ''yaml: unmarshal errors''),
                    InClusterConfig = None,
                    NewForConfig = None,
                    ListIngresses = Inl ''ingresses is forbidden''\<rparr>"

definition malformedWorld :: World where
  "malformedWorld = \<lparr>Files = [''/etc/dashboard/config.yaml'' \<mapsto> ''ingresses: [''],
                      Unmarshal = (\<lambda>d. Inl ''yaml: did not find expected node content''),
                      InClusterConfig = None,
                      NewForConfig = None,
                      ListIngresses = Inr [grafanaIngress]\<rparr>"

definition fallbackWorld :: World where
  "fallbackWorld = \<lparr>Files = [''config.yaml'' \<mapsto> ''groups: ops, dev''],
                     Unmarshal = (\<lambda>d. if d = ''groups: ops, dev''
                       then Inr \<lparr>ConfigGroups = ''ops, dev'', Ingresses = [grafanaEntry]\<rparr>
                       else Inl ''yaml: unmarshal errors''),
                     InClusterConfig = Some ''unable to load in-cluster configuration'',
                     NewForConfig = None,
                     ListIngresses = Inr []\<rparr>"

definition demoSettings :: Settings where
  "demoSettings = \<lparr>demoMode = True, demoGroups = [''ops'']\<rparr>"

definition clusterSettings :: Settings where
  "clusterSettings = \<lparr>demoMode = False, demoGroups = []\<rparr>"

definition getRequest :: Request where
  "getRequest = \<lparr>Method = ''GET'', Header = [''X-Forwarded-Groups'' \<mapsto> ''ops'']\<rparr>"

section \<open>Facts about the library functions\<close>

subsection \<open>The white-space runes\<close>

text \<open>Each encoding of \<open>whiteSpace\<close> decodes to one rune, the white-space rune it is for.\<close>

lemma whiteSpace_runes:
  "map runes whiteSpace =
     [[0x09], [0x0A], [0x0B], [0x0C], [0x0D], [0x20], [0x85], [0xA0], [0x1680],
      [0x2000], [0x2001], [0x2002], [0x2003], [0x2004], [0x2005], [0x2006], [0x2007],
      [0x2008], [0x2009], [0x200A], [0x2028], [0x2029], [0x202F], [0x205F], [0x3000]]"
  by (simp add: whiteSpace_def inRange_def acceptLo_def acceptHi_def byte_def)

subsection \<open>The pieces of \<^verbatim>\<open>Split\<close>\<close>

lemma IndexByte_None: "(IndexByte s c = None) = (c \<notin> set s)"
  by (induction s) auto

lemma IndexByte_Some:
  "IndexByte s c = Some m \<Longrightarrow> c \<notin> set (take m s) \<and> s = take m s @ c # drop (Suc m) s"
proof (induction s arbitrary: m)
  case Nil
  then show ?case by simp
next
  case (Cons x xs)
  show ?case
  proof (cases "x = c")
    case True
    with Cons.prems show ?thesis by simp
  next
    case False
    with Cons.prems obtain k where k: "IndexByte xs c = Some k" "m = Suc k"
      by auto
    from Cons.IH [OF k(1)] False k(2) show ?thesis by simp
  qed
qed

lemma Split_nonempty: "Split s c \<noteq> []"
  by (subst Split.simps) (simp split: option.splits)

lemma Join_Cons: "ps \<noteq> [] \<Longrightarrow> Join (p # ps) sep = p @ sep # Join ps sep"
  by (cases ps) auto

lemma Join_Split: "Join (Split s c) c = s"
proof (induction s c rule: Split.induct)
  case (1 s sep)
  show ?case
  proof (cases "IndexByte s sep")
    case None
    then show ?thesis by (subst Split.simps) simp
  next
    case (Some m)
    have ih: "Join (Split (drop (m + 1) s) sep) sep = drop (m + 1) s"
      using "1.IH" [OF Some] .
    have "Join (Split s sep) sep = take m s @ sep # Join (Split (drop (m + 1) s) sep) sep"
      by (subst Split.simps) (simp add: Some Join_Cons Split_nonempty)
    also have "\<dots> = take m s @ sep # drop (Suc m) s" using ih by simp
    also have "\<dots> = s" using IndexByte_Some [OF Some] by simp
    finally show ?thesis .
  qed
qed

lemma Split_pieces: "p \<in> set (Split s c) \<Longrightarrow> c \<notin> set p"
proof (induction s c arbitrary: p rule: Split.induct)
  case (1 s sep)
  show ?case
  proof (cases "IndexByte s sep")
    case None
    with "1.prems" have "p = s" by (subst (asm) Split.simps) simp
    with None show ?thesis by (simp add: IndexByte_None)
  next
    case (Some m)
    from "1.prems" have "p = take m s \<or> p \<in> set (Split (drop (m + 1) s) sep)"
      by (subst (asm) Split.simps) (simp add: Some)
    then show ?thesis
      using IndexByte_Some [OF Some] "1.IH" [OF Some] by auto
  qed
qed

lemma Split_length: "length (Split s c) = Suc (count_list s c)"
proof (induction s c rule: Split.induct)
  case (1 s sep)
  show ?case
  proof (cases "IndexByte s sep")
    case None
    then have "sep \<notin> set s" by (simp add: IndexByte_None)
    then have "count_list s sep = 0" by (simp add: count_list_0_iff)
    with None show ?thesis by (subst Split.simps) simp
  next
    case (Some m)
    from IndexByte_Some [OF Some]
    have d: "sep \<notin> set (take m s)" and e: "s = take m s @ sep # drop (Suc m) s" by auto
    have "count_list s sep = count_list (take m s @ sep # drop (Suc m) s) sep"
      using e by simp
    also have "\<dots> = Suc (count_list (drop (Suc m) s) sep)"
      using d by (simp add: count_list_0_iff)
    finally have c: "count_list s sep = Suc (count_list (drop (Suc m) s) sep)" .
    have "length (Split s sep) = Suc (length (Split (drop (m + 1) s) sep))"
      by (subst Split.simps) (simp add: Some)
    with "1.IH" [OF Some] c show ?thesis by simp
  qed
qed

subsection \<open>\<^verbatim>\<open>EqualFold\<close> and \<^verbatim>\<open>TrimSpace\<close> on ASCII strings\<close>

lemma byte_inject: "(byte a = byte b) = (a = b)"
  by (simp add: byte_def)

lemma byte_toLower:
  "byte (toLower c) = (if 0x41 \<le> byte c \<and> byte c \<le> 0x5A then byte c + 0x20 else byte c)"
  by (simp add: toLower_def byte_def)

lemma eqRune_ascii:
  assumes "byte a < 0x80" and "byte b < 0x80"
  shows "eqRune orbit (byte a) (byte b) = (toLower a = toLower b)"
proof -
  have "(toLower a = toLower b) = (byte (toLower a) = byte (toLower b))"
    by (simp add: byte_inject)
  also have "\<dots> = eqRune orbit (byte a) (byte b)"
    using assms unfolding byte_toLower eqRune_def Let_def min_def max_def
    by (auto split: if_splits)
  finally show ?thesis by simp
qed

lemma runes_ascii: "asciiString s \<Longrightarrow> runes s = map byte s"
  by (induction s) (auto simp: asciiString_def)

lemma foldLoop_ascii:
  "asciiString s \<Longrightarrow> asciiString t \<Longrightarrow>
   foldLoop orbit (map byte s) (map byte t) = (map toLower s = map toLower t)"
proof (induction s arbitrary: t)
  case Nil
  then show ?case by (cases t) auto
next
  case (Cons a s)
  show ?case
  proof (cases t)
    case Nil
    then show ?thesis by simp
  next
    case (Cons b t')
    with Cons.prems have "byte a < 0x80" "byte b < 0x80" "asciiString s" "asciiString t'"
      by (auto simp: asciiString_def)
    then show ?thesis
      using Cons.IH [of t'] by (simp add: Cons eqRune_ascii)
  qed
qed

lemma EqualFold_ascii:
  "asciiString s \<Longrightarrow> asciiString t \<Longrightarrow>
   EqualFold orbit s t = (map toLower s = map toLower t)"
  by (simp add: EqualFold_def runes_ascii foldLoop_ascii)

lemma EqualFold_empty: "EqualFold orbit [] t = (t = [])"
  by (cases t) (auto simp: EqualFold_def split: prod.splits)

lemma leadingSpace_one_byte:
  assumes "byte c < 0x80"
    and "\<forall>w \<in> set ws. w \<noteq> [] \<and> (length w = 1 \<or> 0x80 \<le> byte (hd w))"
  shows "leadingSpace ws (c # cs) = (if [c] \<in> set ws then 1 else 0)"
  using assms(2)
proof (induction ws)
  case Nil
  then show ?case by simp
next
  case (Cons w ws)
  from Cons.prems have w: "w \<noteq> []" "length w = 1 \<or> 0x80 \<le> byte (hd w)" by auto
  then obtain x xs where x: "w = x # xs" by (cases w) auto
  show ?case
  proof (cases "xs = []")
    case True
    with x Cons show ?thesis by auto
  next
    case False
    with w x have "0x80 \<le> byte x" by auto
    with assms(1) have "x \<noteq> c" by auto
    with x False Cons show ?thesis by auto
  qed
qed

lemma whiteSpace_shape:
  "\<forall>w \<in> set whiteSpace. w \<noteq> [] \<and> (length w = 1 \<or> 0x80 \<le> byte (hd w))
      \<and> (length w = 1 \<or> 0x80 \<le> byte (last w))"
  by (simp add: whiteSpace_def byte_def)

lemma whiteSpace_single: "([c] \<in> set whiteSpace) = asciiSpace c"
  by (simp add: whiteSpace_def asciiSpace_def)

lemma leadingSpace_ascii:
  "asciiString s \<Longrightarrow>
   leadingSpace whiteSpace s = (case s of [] \<Rightarrow> 0 | c # cs \<Rightarrow> if asciiSpace c then 1 else 0)"
proof (cases s)
  case Nil
  then show ?thesis by (simp add: whiteSpace_def)
next
  case (Cons c cs)
  assume "asciiString s"
  with Cons have "byte c < 0x80" by (simp add: asciiString_def)
  then show ?thesis
    using whiteSpace_shape by (simp add: Cons leadingSpace_one_byte whiteSpace_single)
qed

lemma TrimLeft_ascii: "asciiString s \<Longrightarrow> TrimLeft s = dropWhile asciiSpace s"
proof (induction s)
  case Nil
  then show ?case by (subst TrimLeft.simps) (simp add: leadingSpace_ascii)
next
  case (Cons c cs)
  then have "asciiString cs" by (simp add: asciiString_def)
  with Cons show ?case
    by (subst TrimLeft.simps) (simp add: leadingSpace_ascii)
qed

lemma trailingSpace_one_byte:
  assumes "byte c < 0x80"
    and "\<forall>w \<in> set ws. w \<noteq> [] \<and> (length w = 1 \<or> 0x80 \<le> byte (last w))"
  shows "trailingSpace ws (cs @ [c]) = (if [c] \<in> set ws then 1 else 0)"
  using assms(2)
proof (induction ws)
  case Nil
  then show ?case by simp
next
  case (Cons w ws)
  from Cons.prems have w: "w \<noteq> []" "length w = 1 \<or> 0x80 \<le> byte (last w)" by auto
  then obtain xs x where x: "w = xs @ [x]" by (cases w rule: rev_cases) auto
  show ?case
  proof (cases "xs = []")
    case True
    with x Cons show ?thesis by auto
  next
    case False
    with w x have "0x80 \<le> byte x" by auto
    with assms(1) have "x \<noteq> c" by auto
    with x False Cons show ?thesis by auto
  qed
qed

lemma trailingSpace_ascii:
  "asciiString s \<Longrightarrow>
   trailingSpace whiteSpace s = (if s \<noteq> [] \<and> asciiSpace (last s) then 1 else 0)"
proof (cases s rule: rev_cases)
  case Nil
  then show ?thesis by (simp add: whiteSpace_def)
next
  case (snoc cs c)
  assume "asciiString s"
  with snoc have "byte c < 0x80" by (simp add: asciiString_def)
  then show ?thesis
    using whiteSpace_shape by (simp add: snoc trailingSpace_one_byte whiteSpace_single)
qed

lemma TrimRight_ascii: "asciiString s \<Longrightarrow> TrimRight s = rev (dropWhile asciiSpace (rev s))"
proof (induction s rule: rev_induct)
  case Nil
  then show ?case by (subst TrimRight.simps) (simp add: trailingSpace_ascii)
next
  case (snoc c cs)
  then have "asciiString cs" by (simp add: asciiString_def)
  with snoc show ?case
    by (subst TrimRight.simps) (simp add: trailingSpace_ascii)
qed

lemma asciiString_dropWhile: "asciiString s \<Longrightarrow> asciiString (dropWhile P s)"
  by (auto simp: asciiString_def dest: set_dropWhileD)

lemma TrimSpace_ascii:
  "asciiString s \<Longrightarrow> TrimSpace s = rev (dropWhile asciiSpace (rev (dropWhile asciiSpace s)))"
  by (simp add: TrimSpace_def TrimLeft_ascii TrimRight_ascii asciiString_dropWhile)

lemma asciiString_rev: "asciiString (rev s) = asciiString s"
  by (simp add: asciiString_def)

lemma asciiString_TrimSpace: "asciiString s \<Longrightarrow> asciiString (TrimSpace s)"
  by (simp add: TrimSpace_ascii asciiString_rev asciiString_dropWhile)

lemma EqualFold_TrimSpace_ascii:
  "asciiString a \<Longrightarrow> asciiString u \<Longrightarrow>
   EqualFold orbit (TrimSpace a) (TrimSpace u) = (normalize a = normalize u)"
  by (simp add: EqualFold_ascii asciiString_TrimSpace) (simp add: TrimSpace_ascii normalize_def)

text \<open>
  Beyond ASCII the table decides: \<^verbatim>\<open>"k"\<close> and the Kelvin sign U+212A (three bytes) are
  equal under folding exactly when the walk from \<open>0x6B\<close> reaches \<open>0x212A\<close>.
\<close>

lemma runes_kelvin: "runes [CHR 0xE2, CHR 0x84, CHR 0xAA] = [0x212A]"
  by (simp add: inRange_def acceptLo_def acceptHi_def byte_def)

lemma runes_k: "runes ''k'' = [0x6B]"
  by (simp add: byte_def)

lemma EqualFold_uses_table:
  "EqualFold orbit ''k'' [CHR 0xE2, CHR 0x84, CHR 0xAA] = orbit 0x6B 0x212A"
  unfolding EqualFold_def runes_k runes_kelvin by (simp add: eqRune_def)

subsection \<open>Values on the inputs of the examples\<close>

lemma split_ops_admins: "Split ''ops, admins'' CHR '','' = [''ops'', '' admins'']"
  by code_simp

lemma split_ops_dev: "map TrimSpace (Split ''ops, dev'' CHR '','') = [''ops'', ''dev'']"
  by code_simp

lemma split_blank: "Split '' '' CHR '','' = ['' '']"
  by code_simp

lemma split_comma: "Split '','' CHR '','' = [[], []]"
  by code_simp

lemma trim_blank: "TrimSpace '' '' = []"
  by code_simp

lemma trim_blanks: "TrimSpace ''  '' = []"
  by code_simp

lemma trim_admins: "TrimSpace ''admins'' = ''admins''"
  by code_simp

lemma trim_Admins: "TrimSpace ''Admins '' = ''Admins''"
  by code_simp

lemma trim_Admins_plain: "TrimSpace ''Admins'' = ''Admins''"
  by code_simp

lemma ops_matches_ops: "EqualFold orbit (TrimSpace ''ops'') (TrimSpace ''ops'')"
  by code_simp

lemma finance_not_dev: "\<not> EqualFold orbit (TrimSpace ''finance'') (TrimSpace ''dev'')"
  by code_simp

lemma finance_not_ops: "\<not> EqualFold orbit (TrimSpace ''finance'') (TrimSpace ''ops'')"
  by code_simp

lemma ops_not_dev: "\<not> EqualFold orbit (TrimSpace ''ops'') (TrimSpace ''dev'')"
  by code_simp

section \<open>The loops as list functions\<close>

lemma userLoop_iff:
  "userLoop orbit a us = (\<exists>u \<in> set us. EqualFold orbit (TrimSpace a) (TrimSpace u))"
  by (induction us) auto

lemma groupLoop_iff:
  "groupLoop orbit gs us = groupsIntersect orbit gs us"
  by (induction gs) (auto simp: groupsIntersect_def userLoop_iff)

lemma appLoop_filter:
  "appLoop orbit apps us acc = acc @ filter (passes orbit us) apps"
  by (induction apps arbitrary: acc) (auto simp: passes_def groupLoop_iff)

lemma filterAppsByGroups_filter:
  "filterAppsByGroups orbit apps us = filter (\<lambda>app. us = [] \<or> passes orbit us app) apps"
  by (cases us) (simp_all add: filterAppsByGroups_def appLoop_filter)

lemma count_list_filter_if:
  "count_list (filter P xs) x = (if P x then count_list xs x else 0)"
  by (induction xs) auto

lemma demoLoop_map_filter: "demoLoop ings apps = apps @ List.map_filter demoEntry ings"
  by (induction ings arbitrary: apps) (auto split: option.splits)

lemma k8sLoop_map_filter: "k8sLoop ings apps = apps @ List.map_filter k8sEntry ings"
  by (induction ings arbitrary: apps) (auto split: option.splits)

lemma index_eq_true: "(index m k = ''true'') = (m k = Some ''true'')"
  by (simp add: index_def split: option.splits)

lemma demoEntry_grafana: "demoEntry grafanaEntry = Some grafanaApp"
  by (simp add: demoEntry_def grafanaEntry_def grafanaApp_def index_def split_ops_admins)

lemma demoEntry_disabled: "demoEntry disabledEntry = None"
  by (simp add: demoEntry_def disabledEntry_def index_def)

lemma demoEntry_blank: "demoEntry blankEntry = Some blankApp"
  by (simp add: demoEntry_def blankEntry_def blankApp_def index_def split_blank)

section \<open>The adapters and the handler\<close>

lemma getDemoApps_document:
  "getDemoApps w =
     (case demoDocument w of
        None \<Rightarrow> ([], Some (PathError ''config.yaml''))
      | Some d \<Rightarrow>
          (case Unmarshal w d of
             Inl m \<Rightarrow> ([], Some (YamlError m))
           | Inr config \<Rightarrow> (demoLoop (Ingresses config) [], None)))"
  by (simp add: getDemoApps_def demoDocument_def ReadFile_def yamlUnmarshal_def
      split: option.splits sum.splits)

lemma getDemoApps_primary:
  "Files w ''/etc/dashboard/config.yaml'' = Some d \<Longrightarrow>
   getDemoApps w =
     (case yamlUnmarshal w d of
        Inl err \<Rightarrow> ([], Some err)
      | Inr config \<Rightarrow> (demoLoop (Ingresses config) [], None))"
  by (simp add: getDemoApps_def ReadFile_def)

lemma getDemoApps_err: "(snd (getDemoApps w) \<noteq> None) = demoSourceFails w"
  by (simp add: getDemoApps_document demoSourceFails_def split: option.splits sum.splits)

lemma getK8sApps_err: "(snd (getK8sApps w) \<noteq> None) = clusterFails w"
  by (simp add: getK8sApps_def clusterFails_def split: option.splits sum.splits)

lemma getDemoApps_nil: "snd (getDemoApps w) \<noteq> None \<Longrightarrow> fst (getDemoApps w) = []"
  by (simp add: getDemoApps_document split: option.splits sum.splits)

lemma getK8sApps_nil: "snd (getK8sApps w) \<noteq> None \<Longrightarrow> fst (getK8sApps w) = []"
  by (simp add: getK8sApps_def split: option.splits sum.splits)

lemma handleApps_fetch_failed:
  "Method r = ''GET'' \<Longrightarrow>
   snd (if demoMode cfg then getDemoApps w else getK8sApps w) \<noteq> None \<Longrightarrow>
   handleApps orbit cfg w r = HttpError 500 ''{\"error\":\"failed to fetch apps\"}''"
  by (auto simp: handleApps_def Let_def split: prod.splits if_splits)

lemma loadDemoGroups_document:
  "loadDemoGroups w groups =
     (case demoDocument w of
        None \<Rightarrow> groups
      | Some d \<Rightarrow>
          (case Unmarshal w d of
             Inl m \<Rightarrow> groups
           | Inr config \<Rightarrow>
               if ConfigGroups config \<noteq> []
               then map TrimSpace (Split (ConfigGroups config) CHR '','')
               else groups))"
  by (simp add: loadDemoGroups_def demoDocument_def ReadFile_def yamlUnmarshal_def
      split: option.splits sum.splits)

section \<open>The claims\<close>

subsection \<open>C1: the group match\<close>

text \<open>
  Claim C1. For an application of the input with a non-empty groups list and a non-empty
  caller group set, the filter keeps the application if and only if one of its groups
  equals one of the caller's groups, both trimmed of surrounding white space and compared
  without regard to case (\<^verbatim>\<open>EqualFold\<close> of the two \<^verbatim>\<open>TrimSpace\<close> results). On ASCII
  strings that comparison is the equality of the two strings trimmed and put in lower
  case. In particular the application group \<^verbatim>\<open>"Admins "\<close> matches the caller group
  \<^verbatim>\<open>"admins"\<close>, and an application with that group passes for that caller.
\<close>

theorem filter_passes_iff_group_match:
  "(app \<in> set apps \<and> Groups app \<noteq> [] \<and> userGroups \<noteq> [] \<longrightarrow>
      (app \<in> set (filterAppsByGroups orbit apps userGroups)) =
      (\<exists>a \<in> set (Groups app). \<exists>u \<in> set userGroups.
          EqualFold orbit (TrimSpace a) (TrimSpace u)))
   \<and> (asciiString a \<and> asciiString u \<longrightarrow>
        EqualFold orbit (TrimSpace a) (TrimSpace u) = (normalize a = normalize u))
   \<and> EqualFold orbit (TrimSpace ''Admins '') (TrimSpace ''admins'')
   \<and> filterAppsByGroups orbit [adminsApp] [''admins''] = [adminsApp]"
proof (intro conjI impI)
  assume "app \<in> set apps \<and> Groups app \<noteq> [] \<and> userGroups \<noteq> []"
  then show "(app \<in> set (filterAppsByGroups orbit apps userGroups)) =
      (\<exists>a \<in> set (Groups app). \<exists>u \<in> set userGroups.
          EqualFold orbit (TrimSpace a) (TrimSpace u))"
    by (simp add: filterAppsByGroups_filter passes_def groupsIntersect_def)
next
  assume "asciiString a \<and> asciiString u"
  then show "EqualFold orbit (TrimSpace a) (TrimSpace u) = (normalize a = normalize u)"
    by (simp add: EqualFold_TrimSpace_ascii)
next
  show e: "EqualFold orbit (TrimSpace ''Admins '') (TrimSpace ''admins'')"
    by (simp add: trim_Admins trim_admins EqualFold_def eqRune_def byte_def)
  show "filterAppsByGroups orbit [adminsApp] [''admins''] = [adminsApp]"
    using e by (simp add: filterAppsByGroups_def adminsApp_def)
qed

theorem filter_passes_iff_group_match_witness:
  "adminsApp \<in> set [adminsApp] \<and> Groups adminsApp \<noteq> [] \<and> [''admins''] \<noteq> []
   \<and> adminsApp \<in> set (filterAppsByGroups noFold [adminsApp] [''admins''])
   \<and> asciiString ''Admins '' \<and> asciiString ''admins''
   \<and> normalize ''Admins '' = normalize ''admins''"
proof -
  note t = filter_passes_iff_group_match
      [of adminsApp "[adminsApp]" "[''admins'']" noFold "''Admins ''" "''admins''"]
  have g: "Groups adminsApp = [''Admins '']"
    by (simp add: adminsApp_def)
  have h: "adminsApp \<in> set [adminsApp] \<and> Groups adminsApp \<noteq> [] \<and> [''admins''] \<noteq> []"
    by (simp add: g)
  have m: "EqualFold noFold (TrimSpace ''Admins '') (TrimSpace ''admins'')"
    using t by blast
  have i: "adminsApp \<in> set (filterAppsByGroups noFold [adminsApp] [''admins''])"
    using t h m by (simp add: g)
  have a: "asciiString ''Admins '' \<and> asciiString ''admins''"
    by (simp add: asciiString_def byte_def)
  have n: "normalize ''Admins '' = normalize ''admins''"
    using t a m by blast
  from h i a n show ?thesis by blast
qed

subsection \<open>C2: enabled records\<close>

text \<open>
  Claim C2. One iteration of either loop emits an application if and only if the
  annotation bag maps \<^verbatim>\<open>dashboard.home/enabled\<close> to exactly \<^verbatim>\<open>"true"\<close>; a bag without
  the key or with another value is skipped. In an emitted application the title, the
  icon and the description are the values of their annotations, the empty string when
  the annotation is absent. The loops return the applications of the enabled records in
  the records' order, and skipping is no error: a file that is read and decoded gives the
  list with the error \<^verbatim>\<open>nil\<close>, whatever its entries are.
\<close>

theorem mapper_emits_iff_enabled:
  "(demoEntry ing \<noteq> None) = (Annotations ing ''dashboard.home/enabled'' = Some ''true'')
   \<and> (k8sEntry k \<noteq> None) = (MetaAnnotations k ''dashboard.home/enabled'' = Some ''true'')
   \<and> (demoEntry ing = Some app \<longrightarrow>
        Title app = (case Annotations ing ''dashboard.home/title'' of None \<Rightarrow> [] | Some v \<Rightarrow> v)
        \<and> Icon app = (case Annotations ing ''dashboard.home/icon'' of None \<Rightarrow> [] | Some v \<Rightarrow> v)
        \<and> Description app
            = (case Annotations ing ''dashboard.home/description'' of None \<Rightarrow> [] | Some v \<Rightarrow> v))
   \<and> (k8sEntry k = Some app' \<longrightarrow>
        Title app' = (case MetaAnnotations k ''dashboard.home/title'' of None \<Rightarrow> [] | Some v \<Rightarrow> v)
        \<and> Icon app' = (case MetaAnnotations k ''dashboard.home/icon'' of None \<Rightarrow> [] | Some v \<Rightarrow> v)
        \<and> Description app'
            = (case MetaAnnotations k ''dashboard.home/description'' of None \<Rightarrow> [] | Some v \<Rightarrow> v))
   \<and> demoLoop ings [] = List.map_filter demoEntry ings
   \<and> k8sLoop ks [] = List.map_filter k8sEntry ks
   \<and> (Files w ''/etc/dashboard/config.yaml'' = Some d \<and> Unmarshal w d = Inr config \<longrightarrow>
        getDemoApps w = (List.map_filter demoEntry (Ingresses config), None))"
proof (intro conjI impI)
  show "(demoEntry ing \<noteq> None) = (Annotations ing ''dashboard.home/enabled'' = Some ''true'')"
    by (simp add: demoEntry_def Let_def index_eq_true)
  show "(k8sEntry k \<noteq> None) = (MetaAnnotations k ''dashboard.home/enabled'' = Some ''true'')"
    by (simp add: k8sEntry_def Let_def index_eq_true)
next
  assume a: "demoEntry ing = Some app"
  then show "Title app = (case Annotations ing ''dashboard.home/title'' of None \<Rightarrow> [] | Some v \<Rightarrow> v)"
    by (auto simp: demoEntry_def Let_def index_def split: if_splits)
  from a show "Icon app = (case Annotations ing ''dashboard.home/icon'' of None \<Rightarrow> [] | Some v \<Rightarrow> v)"
    by (auto simp: demoEntry_def Let_def index_def split: if_splits)
  from a show "Description app
            = (case Annotations ing ''dashboard.home/description'' of None \<Rightarrow> [] | Some v \<Rightarrow> v)"
    by (auto simp: demoEntry_def Let_def index_def split: if_splits)
next
  assume a: "k8sEntry k = Some app'"
  then show "Title app' = (case MetaAnnotations k ''dashboard.home/title'' of None \<Rightarrow> [] | Some v \<Rightarrow> v)"
    by (auto simp: k8sEntry_def Let_def index_def split: if_splits)
  from a show "Icon app' = (case MetaAnnotations k ''dashboard.home/icon'' of None \<Rightarrow> [] | Some v \<Rightarrow> v)"
    by (auto simp: k8sEntry_def Let_def index_def split: if_splits)
  from a show "Description app'
            = (case MetaAnnotations k ''dashboard.home/description'' of None \<Rightarrow> [] | Some v \<Rightarrow> v)"
    by (auto simp: k8sEntry_def Let_def index_def split: if_splits)
next
  show "demoLoop ings [] = List.map_filter demoEntry ings"
    by (simp add: demoLoop_map_filter)
  show "k8sLoop ks [] = List.map_filter k8sEntry ks"
    by (simp add: k8sLoop_map_filter)
next
  assume "Files w ''/etc/dashboard/config.yaml'' = Some d \<and> Unmarshal w d = Inr config"
  then show "getDemoApps w = (List.map_filter demoEntry (Ingresses config), None)"
    by (simp add: getDemoApps_primary yamlUnmarshal_def demoLoop_map_filter)
qed

theorem mapper_emits_iff_enabled_witness:
  "demoEntry grafanaEntry = Some grafanaApp
   \<and> Annotations grafanaEntry ''dashboard.home/enabled'' = Some ''true''
   \<and> Annotations grafanaEntry ''dashboard.home/icon'' = None \<and> Icon grafanaApp = []
   \<and> Annotations grafanaEntry ''dashboard.home/description'' = None \<and> Description grafanaApp = []
   \<and> demoEntry disabledEntry = None
   \<and> Files demoWorld ''/etc/dashboard/config.yaml'' = Some ''ingresses: ...''
   \<and> Unmarshal demoWorld ''ingresses: ...''
       = Inr \<lparr>ConfigGroups = ''ops'', Ingresses = [disabledEntry, grafanaEntry]\<rparr>
   \<and> getDemoApps demoWorld = ([grafanaApp], None)"
proof -
  have e: "demoEntry grafanaEntry = Some grafanaApp" by (rule demoEntry_grafana)
  have n: "Annotations grafanaEntry ''dashboard.home/icon'' = None"
          "Annotations grafanaEntry ''dashboard.home/description'' = None"
          "Annotations grafanaEntry ''dashboard.home/enabled'' = Some ''true''"
    by (simp_all add: grafanaEntry_def)
  have f: "Files demoWorld ''/etc/dashboard/config.yaml'' = Some ''ingresses: ...''"
          "Unmarshal demoWorld ''ingresses: ...''
             = Inr \<lparr>ConfigGroups = ''ops'', Ingresses = [disabledEntry, grafanaEntry]\<rparr>"
    by (simp_all add: demoWorld_def)
  note t = mapper_emits_iff_enabled [of grafanaEntry _ grafanaApp _ _ _ demoWorld
      "''ingresses: ...''" "\<lparr>ConfigGroups = ''ops'', Ingresses = [disabledEntry, grafanaEntry]\<rparr>"]
  have i: "Icon grafanaApp = []" "Description grafanaApp = []"
    using t e n by simp_all
  have d: "demoEntry disabledEntry = None"
    using mapper_emits_iff_enabled [of disabledEntry] by (simp add: disabledEntry_def)
  have g: "getDemoApps demoWorld = ([grafanaApp], None)"
    using t f e d by simp
  from e n i d f g show ?thesis by simp
qed

subsection \<open>C3: the empty caller group set\<close>

text \<open>
  Claim C3. When the caller's group set is empty the filter returns its input list
  unchanged, whatever the applications and their groups are: it is the identity.
\<close>

theorem filter_empty_caller_identity:
  "filterAppsByGroups orbit apps [] = apps"
  by (simp add: filterAppsByGroups_def)

subsection \<open>C4: order\<close>

text \<open>
  Claim C4. For every input list and every caller group set the output of the filter is a
  subsequence of the input: it is the input with the applications that do not pass left
  out, in the input's order, so an application occurs in the output as often as in the
  input when it passes and not at all otherwise, however many of its groups match.
  For the input \<open>[publicApp, financeApp, opsApp]\<close> and the caller groups
  \<^verbatim>\<open>["dev", "ops"]\<close> only the second is excluded and the output is
  \<open>[publicApp, opsApp]\<close>; both groups of \<open>opsApp\<close> match a caller group and it appears
  once.
\<close>

theorem filter_is_stable_subsequence:
  "subseq (filterAppsByGroups orbit apps userGroups) apps
   \<and> filterAppsByGroups orbit apps userGroups
       = filter (\<lambda>app. userGroups = [] \<or> passes orbit userGroups app) apps
   \<and> count_list (filterAppsByGroups orbit apps userGroups) app
       = (if userGroups = [] \<or> passes orbit userGroups app then count_list apps app else 0)
   \<and> filterAppsByGroups orbit [publicApp, financeApp, opsApp] [''dev'', ''ops'']
       = [publicApp, opsApp]"
proof (intro conjI)
  show "subseq (filterAppsByGroups orbit apps userGroups) apps"
    by (simp add: filterAppsByGroups_filter)
  show "filterAppsByGroups orbit apps userGroups
       = filter (\<lambda>app. userGroups = [] \<or> passes orbit userGroups app) apps"
    by (rule filterAppsByGroups_filter)
  show "count_list (filterAppsByGroups orbit apps userGroups) app
       = (if userGroups = [] \<or> passes orbit userGroups app then count_list apps app else 0)"
    unfolding filterAppsByGroups_filter by (rule count_list_filter_if)
  show "filterAppsByGroups orbit [publicApp, financeApp, opsApp] [''dev'', ''ops'']
       = [publicApp, opsApp]"
    by (simp add: filterAppsByGroups_def publicApp_def financeApp_def opsApp_def
        ops_matches_ops finance_not_dev finance_not_ops ops_not_dev)
qed

subsection \<open>C5: public applications\<close>

text \<open>
  Claim C5. An application whose groups list is empty passes the filter for every caller
  group set, the empty one too: wherever it stands in the input it stands in the output,
  between what the filter keeps of the applications before it and after it.
\<close>

theorem public_app_always_passes:
  "(Groups app = [] \<longrightarrow>
      filterAppsByGroups orbit (before @ app # after) userGroups
        = filterAppsByGroups orbit before userGroups @ app
            # filterAppsByGroups orbit after userGroups)
   \<and> (Groups app = [] \<and> app \<in> set apps \<longrightarrow>
        app \<in> set (filterAppsByGroups orbit apps userGroups))"
  by (simp add: filterAppsByGroups_filter passes_def)

theorem public_app_always_passes_witness:
  "Groups publicApp = [] \<and> publicApp \<in> set [financeApp, publicApp]
   \<and> filterAppsByGroups noFold [financeApp, publicApp] [''dev''] = [publicApp]
   \<and> publicApp \<in> set (filterAppsByGroups noFold [financeApp, publicApp] [])"
proof -
  have g: "Groups publicApp = []" by (simp add: publicApp_def)
  have f: "filterAppsByGroups noFold [financeApp] [''dev''] = []"
    by (simp add: filterAppsByGroups_def financeApp_def finance_not_dev)
  have "filterAppsByGroups noFold ([financeApp] @ publicApp # []) [''dev'']
        = filterAppsByGroups noFold [financeApp] [''dev''] @ publicApp
            # filterAppsByGroups noFold [] [''dev'']"
    using public_app_always_passes [of publicApp noFold "[financeApp]" "[]" "[''dev'']"] g
    by blast
  moreover have "filterAppsByGroups noFold [] [''dev''] = []"
    by (simp add: filterAppsByGroups_def)
  ultimately have a: "filterAppsByGroups noFold [financeApp, publicApp] [''dev''] = [publicApp]"
    using f by simp
  have b: "publicApp \<in> set (filterAppsByGroups noFold [financeApp, publicApp] [])"
    using public_app_always_passes [of publicApp noFold _ _ "[]" "[financeApp, publicApp]"] g
    by simp
  from g a b show ?thesis by simp
qed

subsection \<open>C6: the groups annotation\<close>

text \<open>
  Claim C6. The groups list of an emitted application is the \<^verbatim>\<open>groups\<close> annotation split
  at its commas when the annotation is present and not empty, and the empty list when it
  is absent or empty. The split trims nothing: joining the pieces with commas gives the
  annotation back byte for byte, no piece contains a comma, and there is one piece more
  than there are commas. \<^verbatim>\<open>"ops, admins"\<close> splits to \<^verbatim>\<open>["ops", " admins"]\<close>, the
  leading space kept.
\<close>

theorem groups_annotation_split_untrimmed:
  "(demoEntry ing = Some app \<longrightarrow>
      Groups app = (case Annotations ing ''dashboard.home/groups'' of
                      None \<Rightarrow> []
                    | Some g \<Rightarrow> if g = [] then [] else Split g CHR '',''))
   \<and> (k8sEntry k = Some app' \<longrightarrow>
      Groups app' = (case MetaAnnotations k ''dashboard.home/groups'' of
                       None \<Rightarrow> []
                     | Some g \<Rightarrow> if g = [] then [] else Split g CHR '',''))
   \<and> Join (Split g CHR '','') CHR '','' = g
   \<and> (\<forall>p \<in> set (Split g CHR '',''). CHR '','' \<notin> set p)
   \<and> length (Split g CHR '','') = Suc (count_list g CHR '','')
   \<and> Split ''ops, admins'' CHR '','' = [''ops'', '' admins'']"
proof (intro conjI impI ballI)
  assume "demoEntry ing = Some app"
  then show "Groups app = (case Annotations ing ''dashboard.home/groups'' of
                      None \<Rightarrow> []
                    | Some g \<Rightarrow> if g = [] then [] else Split g CHR '','')"
    by (auto simp: demoEntry_def Let_def index_def split: if_splits option.splits)
next
  assume "k8sEntry k = Some app'"
  then show "Groups app' = (case MetaAnnotations k ''dashboard.home/groups'' of
                       None \<Rightarrow> []
                     | Some g \<Rightarrow> if g = [] then [] else Split g CHR '','')"
    by (auto simp: k8sEntry_def Let_def index_def split: if_splits option.splits)
next
  show "Join (Split g CHR '','') CHR '','' = g" by (rule Join_Split)
  show "length (Split g CHR '','') = Suc (count_list g CHR '','')" by (rule Split_length)
  show "Split ''ops, admins'' CHR '','' = [''ops'', '' admins'']" by (rule split_ops_admins)
next
  fix p assume "p \<in> set (Split g CHR '','')"
  then show "CHR '','' \<notin> set p" by (rule Split_pieces)
qed

theorem groups_annotation_split_untrimmed_witness:
  "demoEntry grafanaEntry = Some grafanaApp
   \<and> Groups grafanaApp = [''ops'', '' admins'']
   \<and> (\<exists>a. k8sEntry grafanaIngress = Some a \<and> Groups a = [''ops'', '' admins''])
   \<and> (\<exists>a. demoEntry plainEntry = Some a \<and> Groups a = [])
   \<and> '' admins'' \<in> set (Split ''ops, admins'' CHR '','')
   \<and> CHR '','' \<notin> set '' admins''"
proof -
  note t = groups_annotation_split_untrimmed
  have e: "demoEntry grafanaEntry = Some grafanaApp" by (rule demoEntry_grafana)
  have g: "Groups grafanaApp = [''ops'', '' admins'']"
    using t [of grafanaEntry grafanaApp] e by (simp add: grafanaEntry_def)
  obtain a where a: "k8sEntry grafanaIngress = Some a"
    by (simp add: k8sEntry_def grafanaIngress_def index_def)
  have ga: "Groups a = [''ops'', '' admins'']"
    using t [of _ _ grafanaIngress a] a by (simp add: grafanaIngress_def)
  obtain b where b: "demoEntry plainEntry = Some b"
    by (simp add: demoEntry_def plainEntry_def index_def)
  have gb: "Groups b = []"
    using t [of plainEntry b] b by (simp add: plainEntry_def)
  have m: "'' admins'' \<in> set (Split ''ops, admins'' CHR '','')"
    using t by simp
  have c: "CHR '','' \<notin> set '' admins''"
    using t [of _ _ _ _ "''ops, admins''"] m by blast
  from e g a ga b gb m c show ?thesis by blast
qed

subsection \<open>C7: the derived URL\<close>

text \<open>
  Claim C7, as stated, fails. The ingress \<open>sharedIngress\<close> has two rules and one TLS
  entry, for the host of the second rule only. TLS is not configured for the first rule,
  so the claim gives \<^verbatim>\<open>http://app.example.com\<close>; the code finds the TLS list non-empty
  and returns \<^verbatim>\<open>https://app.example.com\<close>.
\<close>

theorem url_scheme_per_rule_counterexample:
  "Rules (Spec sharedIngress) ! 0 = \<lparr>Host = ''app.example.com''\<rparr>
   \<and> TLS (Spec sharedIngress) = [\<lparr>Hosts = [''secure.example.com''], SecretName = ''secure-tls''\<rparr>]
   \<and> \<not> tlsConfiguredFor sharedIngress (Rules (Spec sharedIngress) ! 0)
   \<and> specIngressURL sharedIngress = ''http://app.example.com''
   \<and> getIngressURL sharedIngress = ''https://app.example.com''"
  by (simp add: sharedIngress_def tlsConfiguredFor_def specIngressURL_def getIngressURL_def)

text \<open>
  Claim C7, amended. For every cluster record with at least one rule the derived URL is
  the host of the first rule, prefixed with \<^verbatim>\<open>https://\<close> when the record has at least one
  TLS entry (whatever hosts that entry names) and with \<^verbatim>\<open>http://\<close> when it has none; a
  record without rules has the empty URL. So a record whose TLS covers the first rule
  gets \<^verbatim>\<open>https://\<close>, as the claim says. The scenarios: host \<^verbatim>\<open>app.example.com\<close> with a
  TLS entry gives \<^verbatim>\<open>https://app.example.com\<close>, without one
  \<^verbatim>\<open>http://app.example.com\<close>, and no rules give the empty string.
\<close>

theorem ingress_url_scheme:
  "getIngressURL ing =
     (if Rules (Spec ing) = [] then []
      else (if TLS (Spec ing) = [] then ''http://'' else ''https://'')
             @ Host (hd (Rules (Spec ing))))
   \<and> (Rules (Spec ing) \<noteq> [] \<and> tlsConfiguredFor ing (hd (Rules (Spec ing))) \<longrightarrow>
        getIngressURL ing = ''https://'' @ Host (hd (Rules (Spec ing))))
   \<and> getIngressURL grafanaIngress = ''https://app.example.com''
   \<and> getIngressURL plainIngress = ''http://app.example.com''
   \<and> getIngressURL bareIngress = []"
proof (intro conjI impI)
  show u: "getIngressURL ing =
     (if Rules (Spec ing) = [] then []
      else (if TLS (Spec ing) = [] then ''http://'' else ''https://'')
             @ Host (hd (Rules (Spec ing))))"
    by (simp add: getIngressURL_def hd_conv_nth)
  assume "Rules (Spec ing) \<noteq> [] \<and> tlsConfiguredFor ing (hd (Rules (Spec ing)))"
  then have "Rules (Spec ing) \<noteq> []" and "TLS (Spec ing) \<noteq> []"
    by (auto simp: tlsConfiguredFor_def)
  with u show "getIngressURL ing = ''https://'' @ Host (hd (Rules (Spec ing)))"
    by simp
next
  show "getIngressURL grafanaIngress = ''https://app.example.com''"
    by (simp add: getIngressURL_def grafanaIngress_def)
  show "getIngressURL plainIngress = ''http://app.example.com''"
    by (simp add: getIngressURL_def plainIngress_def)
  show "getIngressURL bareIngress = []"
    by (simp add: getIngressURL_def bareIngress_def)
qed

theorem ingress_url_scheme_witness:
  "Rules (Spec grafanaIngress) \<noteq> []
   \<and> tlsConfiguredFor grafanaIngress (hd (Rules (Spec grafanaIngress)))
   \<and> getIngressURL grafanaIngress = ''https://'' @ Host (hd (Rules (Spec grafanaIngress)))
   \<and> Host (hd (Rules (Spec grafanaIngress))) = ''app.example.com''"
proof -
  have h: "Rules (Spec grafanaIngress) \<noteq> []
           \<and> tlsConfiguredFor grafanaIngress (hd (Rules (Spec grafanaIngress)))"
    by (simp add: grafanaIngress_def tlsConfiguredFor_def)
  have "getIngressURL grafanaIngress = ''https://'' @ Host (hd (Rules (Spec grafanaIngress)))"
    using ingress_url_scheme [of grafanaIngress] h by blast
  moreover have "Host (hd (Rules (Spec grafanaIngress))) = ''app.example.com''"
    by (simp add: grafanaIngress_def)
  ultimately show ?thesis using h by blast
qed

subsection \<open>C8: failed fetches\<close>

text \<open>
  Claim C8. A fetch fails exactly when its source is unavailable or malformed: in demo
  mode when neither path can be read or the document read does not decode, in cluster
  mode when one of the three cluster calls fails. A failed fetch returns the error with
  no application at all (the nil slice), never the records mapped so far, and the
  handler of a GET request then answers with the single error response, status 500 and
  the body \<^verbatim>\<open>{"error":"failed to fetch apps"}\<close>, and encodes no application.
\<close>

theorem failed_fetch_has_no_apps:
  "(snd (getDemoApps w) \<noteq> None) = demoSourceFails w
   \<and> (snd (getK8sApps w) \<noteq> None) = clusterFails w
   \<and> (demoSourceFails w \<longrightarrow> fst (getDemoApps w) = [])
   \<and> (clusterFails w \<longrightarrow> fst (getK8sApps w) = [])
   \<and> (Method r = ''GET'' \<and> (if demoMode cfg then demoSourceFails w else clusterFails w) \<longrightarrow>
        handleApps orbit cfg w r = HttpError 500 ''{\"error\":\"failed to fetch apps\"}'')"
proof (intro conjI impI)
  show "(snd (getDemoApps w) \<noteq> None) = demoSourceFails w" by (rule getDemoApps_err)
  show "(snd (getK8sApps w) \<noteq> None) = clusterFails w" by (rule getK8sApps_err)
next
  assume "demoSourceFails w"
  then have "snd (getDemoApps w) \<noteq> None" by (simp only: getDemoApps_err)
  then show "fst (getDemoApps w) = []" by (rule getDemoApps_nil)
next
  assume "clusterFails w"
  then have "snd (getK8sApps w) \<noteq> None" by (simp only: getK8sApps_err)
  then show "fst (getK8sApps w) = []" by (rule getK8sApps_nil)
next
  assume a: "Method r = ''GET'' \<and> (if demoMode cfg then demoSourceFails w else clusterFails w)"
  then have "snd (if demoMode cfg then getDemoApps w else getK8sApps w) \<noteq> None"
    using getDemoApps_err [of w] getK8sApps_err [of w] by (cases "demoMode cfg") simp_all
  with a show "handleApps orbit cfg w r = HttpError 500 ''{\"error\":\"failed to fetch apps\"}''"
    by (simp add: handleApps_fetch_failed)
qed

theorem failed_fetch_has_no_apps_witness:
  "demoSourceFails offlineWorld \<and> getDemoApps offlineWorld = ([], Some (PathError ''config.yaml''))
   \<and> demoSourceFails malformedWorld
   \<and> fst (getDemoApps malformedWorld) = [] \<and> snd (getDemoApps malformedWorld) \<noteq> None
   \<and> clusterFails offlineWorld
   \<and> fst (getK8sApps offlineWorld) = [] \<and> snd (getK8sApps offlineWorld) \<noteq> None
   \<and> Method getRequest = ''GET''
   \<and> handleApps noFold demoSettings malformedWorld getRequest
       = HttpError 500 ''{\"error\":\"failed to fetch apps\"}''
   \<and> handleApps noFold clusterSettings offlineWorld getRequest
       = HttpError 500 ''{\"error\":\"failed to fetch apps\"}''"
proof -
  have d: "demoSourceFails offlineWorld" "demoSourceFails malformedWorld"
    by (simp_all add: demoSourceFails_def demoDocument_def offlineWorld_def malformedWorld_def)
  have c: "clusterFails offlineWorld"
    by (simp add: clusterFails_def offlineWorld_def)
  have m: "Method getRequest = ''GET''" by (simp add: getRequest_def)
  have s: "demoMode demoSettings" "\<not> demoMode clusterSettings"
    by (simp_all add: demoSettings_def clusterSettings_def)
  have g: "getDemoApps offlineWorld = ([], Some (PathError ''config.yaml''))"
    by (simp add: getDemoApps_document demoDocument_def offlineWorld_def)
  have 1: "fst (getDemoApps malformedWorld) = []" "snd (getDemoApps malformedWorld) \<noteq> None"
    using failed_fetch_has_no_apps [of malformedWorld] d by simp_all
  have 2: "fst (getK8sApps offlineWorld) = []" "snd (getK8sApps offlineWorld) \<noteq> None"
    using failed_fetch_has_no_apps [of offlineWorld] c by simp_all
  have 3: "handleApps noFold demoSettings malformedWorld getRequest
       = HttpError 500 ''{\"error\":\"failed to fetch apps\"}''"
    using failed_fetch_has_no_apps [of malformedWorld getRequest demoSettings noFold] d m s
    by simp
  have 4: "handleApps noFold clusterSettings offlineWorld getRequest
       = HttpError 500 ''{\"error\":\"failed to fetch apps\"}''"
    using failed_fetch_has_no_apps [of offlineWorld getRequest clusterSettings noFold] c m s
    by simp
  from d c m g 1 2 3 4 show ?thesis by simp
qed

subsection \<open>C9: the fallback path\<close>

text \<open>
  Claim C9. \<^verbatim>\<open>getDemoApps\<close> fails with a read error if and only if neither the primary
  path \<^verbatim>\<open>/etc/dashboard/config.yaml\<close> nor the fallback path \<^verbatim>\<open>config.yaml\<close> can be read,
  and the error is then the one of the fallback read. When the primary path can be read
  its contents are decoded; when it cannot and the fallback path can, the contents of the
  fallback are decoded; the result is then the decoder's error or the mapped entries.
  \<^verbatim>\<open>loadDemoGroups\<close> reads the same two paths in the same order and keeps the groups it
  had when neither can be read.
\<close>

theorem demo_read_falls_back:
  "((\<exists>p. snd (getDemoApps w) = Some (PathError p))
      = (Files w ''/etc/dashboard/config.yaml'' = None \<and> Files w ''config.yaml'' = None))
   \<and> (Files w ''/etc/dashboard/config.yaml'' = None \<and> Files w ''config.yaml'' = None \<longrightarrow>
        getDemoApps w = ([], Some (PathError ''config.yaml''))
        \<and> loadDemoGroups w groups = groups)
   \<and> (Files w ''/etc/dashboard/config.yaml'' = Some d
        \<or> Files w ''/etc/dashboard/config.yaml'' = None \<and> Files w ''config.yaml'' = Some d \<longrightarrow>
        getDemoApps w =
          (case Unmarshal w d of
             Inl m \<Rightarrow> ([], Some (YamlError m))
           | Inr config \<Rightarrow> (demoLoop (Ingresses config) [], None))
        \<and> loadDemoGroups w groups =
          (case Unmarshal w d of
             Inl m \<Rightarrow> groups
           | Inr config \<Rightarrow>
               if ConfigGroups config \<noteq> []
               then map TrimSpace (Split (ConfigGroups config) CHR '','')
               else groups))"
proof (intro conjI impI)
  show "(\<exists>p. snd (getDemoApps w) = Some (PathError p))
      = (Files w ''/etc/dashboard/config.yaml'' = None \<and> Files w ''config.yaml'' = None)"
    by (auto simp: getDemoApps_document demoDocument_def split: option.splits sum.splits)
next
  assume "Files w ''/etc/dashboard/config.yaml'' = None \<and> Files w ''config.yaml'' = None"
  then have n: "demoDocument w = None" by (simp add: demoDocument_def)
  show "getDemoApps w = ([], Some (PathError ''config.yaml''))"
    by (simp add: getDemoApps_document n)
  show "loadDemoGroups w groups = groups"
    by (simp add: loadDemoGroups_document n)
next
  assume "Files w ''/etc/dashboard/config.yaml'' = Some d
        \<or> Files w ''/etc/dashboard/config.yaml'' = None \<and> Files w ''config.yaml'' = Some d"
  then have s: "demoDocument w = Some d" by (auto simp: demoDocument_def)
  show "getDemoApps w =
          (case Unmarshal w d of
             Inl m \<Rightarrow> ([], Some (YamlError m))
           | Inr config \<Rightarrow> (demoLoop (Ingresses config) [], None))"
    by (simp add: getDemoApps_document s)
  show "loadDemoGroups w groups =
          (case Unmarshal w d of
             Inl m \<Rightarrow> groups
           | Inr config \<Rightarrow>
               if ConfigGroups config \<noteq> []
               then map TrimSpace (Split (ConfigGroups config) CHR '','')
               else groups)"
    by (simp add: loadDemoGroups_document s)
qed

theorem demo_read_falls_back_witness:
  "Files offlineWorld ''/etc/dashboard/config.yaml'' = None
   \<and> Files offlineWorld ''config.yaml'' = None
   \<and> snd (getDemoApps offlineWorld) = Some (PathError ''config.yaml'')
   \<and> loadDemoGroups offlineWorld [''kept''] = [''kept'']
   \<and> Files fallbackWorld ''/etc/dashboard/config.yaml'' = None
   \<and> Files fallbackWorld ''config.yaml'' = Some ''groups: ops, dev''
   \<and> getDemoApps fallbackWorld = ([grafanaApp], None)
   \<and> loadDemoGroups fallbackWorld [] = [''ops'', ''dev'']
   \<and> Files malformedWorld ''/etc/dashboard/config.yaml'' = Some ''ingresses: [''
   \<and> getDemoApps malformedWorld
       = ([], Some (YamlError ''yaml: did not find expected node content''))"
proof -
  have o: "Files offlineWorld ''/etc/dashboard/config.yaml'' = None"
          "Files offlineWorld ''config.yaml'' = None"
    by (simp_all add: offlineWorld_def)
  have f: "Files fallbackWorld ''/etc/dashboard/config.yaml'' = None"
          "Files fallbackWorld ''config.yaml'' = Some ''groups: ops, dev''"
    by (simp_all add: fallbackWorld_def)
  have u: "Unmarshal fallbackWorld ''groups: ops, dev''
            = Inr \<lparr>ConfigGroups = ''ops, dev'', Ingresses = [grafanaEntry]\<rparr>"
    by (simp add: fallbackWorld_def)
  have m: "Files malformedWorld ''/etc/dashboard/config.yaml'' = Some ''ingresses: [''"
    by (simp add: malformedWorld_def)
  have v: "Unmarshal malformedWorld ''ingresses: [''
            = Inl ''yaml: did not find expected node content''"
    by (simp add: malformedWorld_def)
  have 1: "snd (getDemoApps offlineWorld) = Some (PathError ''config.yaml'')"
          "loadDemoGroups offlineWorld [''kept''] = [''kept'']"
    using demo_read_falls_back [of offlineWorld "[''kept'']"] o by simp_all
  have 2: "getDemoApps fallbackWorld = ([grafanaApp], None)"
          "loadDemoGroups fallbackWorld [] = [''ops'', ''dev'']"
    using demo_read_falls_back [of fallbackWorld "[]" "''groups: ops, dev''"] f u
    by (simp_all add: demoEntry_grafana split_ops_dev)
  have 3: "getDemoApps malformedWorld
       = ([], Some (YamlError ''yaml: did not find expected node content''))"
    using demo_read_falls_back [of malformedWorld _ "''ingresses: [''"] m v by simp
  from o f m 1 2 3 show ?thesis by simp
qed

subsection \<open>C10: annotations of white space and commas\<close>

text \<open>
  Claim C10, as stated, fails. The entry \<open>blankEntry\<close> is enabled and its groups
  annotation is one space; the application made of it has the groups list \<^verbatim>\<open>[" "]\<close>.
  It is nevertheless visible to a caller that presents no group at all: with an empty
  caller group set the filter returns its input, so no group of the caller trims to the
  same string as a group of the application.
\<close>

theorem blank_groups_visible_counterexample:
  "Annotations blankEntry ''dashboard.home/groups'' = Some '' ''
   \<and> demoEntry blankEntry = Some blankApp
   \<and> Groups blankApp = ['' '']
   \<and> blankApp \<in> set (filterAppsByGroups noFold [blankApp] [])
   \<and> \<not> groupsIntersect noFold (Groups blankApp) []"
  by (simp add: demoEntry_blank filterAppsByGroups_def groupsIntersect_def)
     (simp add: blankEntry_def blankApp_def)

text \<open>
  Claim C10, amended. An enabled record whose groups annotation is a non-empty string
  gives an application with a non-empty groups list (a split has at least one piece), so
  the rule for public applications never applies to it. For a caller with a non-empty
  group set such an application is kept if and only if one of its groups and one of the
  caller's groups are equal after trimming and case folding; a group that trims to the
  empty string is matched exactly by the caller groups that trim to the empty string.
  The annotations \<^verbatim>\<open>" "\<close> and \<^verbatim>\<open>","\<close> give the groups \<^verbatim>\<open>[" "]\<close> and \<^verbatim>\<open>["", ""]\<close>; the
  application of the first is hidden from the caller groups \<^verbatim>\<open>["admins"]\<close> and shown to
  \<^verbatim>\<open>["admins", "  "]\<close>. (A caller with an empty group set sees every application.)
\<close>

theorem nonempty_annotation_restricts:
  "(demoEntry ing = Some app \<and> index (Annotations ing) ''dashboard.home/groups'' \<noteq> [] \<longrightarrow>
      Groups app = Split (index (Annotations ing) ''dashboard.home/groups'') CHR '',''
      \<and> Groups app \<noteq> [])
   \<and> (k8sEntry k = Some app' \<and> index (MetaAnnotations k) ''dashboard.home/groups'' \<noteq> [] \<longrightarrow>
      Groups app' = Split (index (MetaAnnotations k) ''dashboard.home/groups'') CHR '',''
      \<and> Groups app' \<noteq> [])
   \<and> (Groups a \<noteq> [] \<and> userGroups \<noteq> [] \<longrightarrow>
        (a \<in> set (filterAppsByGroups orbit apps userGroups)) =
        (a \<in> set apps \<and> (\<exists>x \<in> set (Groups a). \<exists>u \<in> set userGroups.
            EqualFold orbit (TrimSpace x) (TrimSpace u))))
   \<and> (TrimSpace x = [] \<longrightarrow>
        EqualFold orbit (TrimSpace x) (TrimSpace u) = (TrimSpace u = []))
   \<and> Split '' '' CHR '','' = ['' ''] \<and> Split '','' CHR '','' = [[], []]
   \<and> filterAppsByGroups orbit [blankApp] [''admins''] = []
   \<and> filterAppsByGroups orbit [blankApp] [''admins'', ''  ''] = [blankApp]"
proof (intro conjI impI)
  assume a: "demoEntry ing = Some app \<and> index (Annotations ing) ''dashboard.home/groups'' \<noteq> []"
  then show g: "Groups app = Split (index (Annotations ing) ''dashboard.home/groups'') CHR '',''"
    by (auto simp: demoEntry_def Let_def split: if_splits)
  show "Groups app \<noteq> []" unfolding g by (rule Split_nonempty)
next
  assume a: "k8sEntry k = Some app' \<and> index (MetaAnnotations k) ''dashboard.home/groups'' \<noteq> []"
  then show g: "Groups app' = Split (index (MetaAnnotations k) ''dashboard.home/groups'') CHR '',''"
    by (auto simp: k8sEntry_def Let_def split: if_splits)
  show "Groups app' \<noteq> []" unfolding g by (rule Split_nonempty)
next
  assume "Groups a \<noteq> [] \<and> userGroups \<noteq> []"
  then show "(a \<in> set (filterAppsByGroups orbit apps userGroups)) =
        (a \<in> set apps \<and> (\<exists>x \<in> set (Groups a). \<exists>u \<in> set userGroups.
            EqualFold orbit (TrimSpace x) (TrimSpace u)))"
    by (simp add: filterAppsByGroups_filter passes_def groupsIntersect_def)
next
  assume "TrimSpace x = []"
  then show "EqualFold orbit (TrimSpace x) (TrimSpace u) = (TrimSpace u = [])"
    by (simp add: EqualFold_empty)
next
  show "Split '' '' CHR '','' = ['' '']" by (rule split_blank)
  show "Split '','' CHR '','' = [[], []]" by (rule split_comma)
  show "filterAppsByGroups orbit [blankApp] [''admins''] = []"
    by (simp add: filterAppsByGroups_def blankApp_def trim_blank trim_admins EqualFold_empty)
  show "filterAppsByGroups orbit [blankApp] [''admins'', ''  ''] = [blankApp]"
    by (simp add: filterAppsByGroups_def blankApp_def trim_blank trim_blanks trim_admins
        EqualFold_empty)
qed

theorem nonempty_annotation_restricts_witness:
  "demoEntry blankEntry = Some blankApp
   \<and> index (Annotations blankEntry) ''dashboard.home/groups'' \<noteq> []
   \<and> Groups blankApp \<noteq> [] \<and> [''admins''] \<noteq> []
   \<and> blankApp \<notin> set (filterAppsByGroups noFold [blankApp] [''admins''])
   \<and> blankApp \<in> set (filterAppsByGroups noFold [blankApp] [''admins'', ''  ''])
   \<and> (\<exists>a. demoEntry commaEntry = Some a \<and> Groups a = [[], []])
   \<and> (\<exists>a. k8sEntry grafanaIngress = Some a \<and> Groups a \<noteq> [])
   \<and> TrimSpace '' '' = []
   \<and> EqualFold noFold (TrimSpace '' '') (TrimSpace ''  '')"
proof -
  note t = nonempty_annotation_restricts
  have e: "demoEntry blankEntry = Some blankApp" by (rule demoEntry_blank)
  have i: "index (Annotations blankEntry) ''dashboard.home/groups'' \<noteq> []"
    by (simp add: blankEntry_def index_def)
  have g: "Groups blankApp \<noteq> []"
    using t [of blankEntry blankApp] e i by blast
  have 1: "blankApp \<notin> set (filterAppsByGroups noFold [blankApp] [''admins''])"
    using t [of _ _ _ _ _ _ noFold] by simp
  have 2: "blankApp \<in> set (filterAppsByGroups noFold [blankApp] [''admins'', ''  ''])"
    using t [of _ _ _ _ _ _ noFold] by simp
  obtain c where c: "demoEntry commaEntry = Some c"
    by (simp add: demoEntry_def commaEntry_def index_def)
  have ic: "index (Annotations commaEntry) ''dashboard.home/groups'' = '',''"
    by (simp add: commaEntry_def index_def)
  have gc: "Groups c = [[], []]"
    using t [of commaEntry c] c ic by simp
  obtain a where a: "k8sEntry grafanaIngress = Some a"
    by (simp add: k8sEntry_def grafanaIngress_def index_def)
  have ia: "index (MetaAnnotations grafanaIngress) ''dashboard.home/groups'' \<noteq> []"
    by (simp add: grafanaIngress_def index_def)
  have ga: "Groups a \<noteq> []"
    using t [of _ _ grafanaIngress a] a ia by blast
  have b: "TrimSpace '' '' = []" by (rule trim_blank)
  have f: "EqualFold noFold (TrimSpace '' '') (TrimSpace ''  '')"
    using t [of _ _ _ _ _ _ noFold _ "'' ''" "''  ''"] b by (simp add: trim_blanks)
  from e i g 1 2 c gc a ga b f show ?thesis by blast
qed

section \<open>The earlier revision distinguishes case\<close>

text \<open>
  With the comparison \<^verbatim>\<open>==\<close> of the earlier revision the application group
  \<^verbatim>\<open>"Admins "\<close> does not match the caller group \<^verbatim>\<open>"admins"\<close>; it matches \<^verbatim>\<open>"Admins"\<close>.
\<close>

lemma earlier_revision_is_case_sensitive:
  "filterAppsByGroupsV1 [adminsApp] [''admins''] = []
   \<and> filterAppsByGroupsV1 [adminsApp] [''Admins''] = [adminsApp]"
  by (simp add: filterAppsByGroupsV1_def adminsApp_def trim_Admins trim_Admins_plain trim_admins)

end
